theory Spec2Isabelle
  imports Complex_Main
begin

section \<open>Python values used by main.py\<close>

text \<open>
  The program is a single class, \<^verbatim>\<open>RateLimitTester\<close>, and a \<^verbatim>\<open>main\<close> function. Its
  effects are calls of \<^verbatim>\<open>session.get\<close>, \<^verbatim>\<open>time.time\<close>, \<^verbatim>\<open>time.sleep\<close>, \<^verbatim>\<open>logging.*\<close> and
  \<^verbatim>\<open>print\<close>. The model threads a state that records every such call in order (the trace)
  and reads the answers of the network and of the clock from a world that is a parameter
  of every theorem. Python's ints are \<open>int\<close>. A float is the real number it denotes; the
  two float operations of the program (the quotient of two ints, the difference of two
  floats) round their results, and how they round also belongs to the world: no theorem
  assumes anything about it.
\<close>

text \<open>\<^verbatim>\<open>str(n)\<close> for an int: decimal digits, with a minus sign for a negative number.\<close>

fun str_nat :: "nat \<Rightarrow> string" where
  "str_nat n =
     (if n < 10 then [''0123456789'' ! n]
      else str_nat (n div 10) @ [''0123456789'' ! (n mod 10)])"

declare str_nat.simps [simp del]

definition str_int :: "int \<Rightarrow> string" where
  "str_int i = (if i < 0 then CHR ''-'' # str_nat (nat (- i)) else str_nat (nat i))"

text \<open>\<^verbatim>\<open>str(v)\<close> for a header value read with \<^verbatim>\<open>headers.get\<close>: the text, or \<^verbatim>\<open>None\<close>.\<close>

definition str_opt :: "string option \<Rightarrow> string" where
  "str_opt v = (case v of None \<Rightarrow> ''None'' | Some s \<Rightarrow> s)"

text \<open>
  The exceptions that occur, each with its text. Everything under
  \<^verbatim>\<open>requests.exceptions.RequestException\<close> is one constructor, holding which subclass it
  is, because \<^verbatim>\<open>send_request\<close> catches that base class. \<open>ValueError\<close> stands for
  \<^verbatim>\<open>ValueError\<close> and its subclasses that are not request exceptions (urllib3's
  \<^verbatim>\<open>LocationParseError\<close> among them), which the first handler of \<^verbatim>\<open>main\<close> takes;
  \<open>OtherException\<close> for every other subclass of \<^verbatim>\<open>Exception\<close>. What is not an
  \<^verbatim>\<open>Exception\<close> (a keyboard interrupt) is not modelled.
\<close>

datatype request_exception =
    Timeout string
  | ConnectionError string
  | HTTPError string
  | OtherRequestException string

datatype exn =
    RequestException request_exception
  | ValueError string
  | ZeroDivisionError string
  | OtherException string

fun str_request_exception :: "request_exception \<Rightarrow> string" where
  "str_request_exception (Timeout m) = m"
| "str_request_exception (ConnectionError m) = m"
| "str_request_exception (HTTPError m) = m"
| "str_request_exception (OtherRequestException m) = m"

fun str_exn :: "exn \<Rightarrow> string" where
  "str_exn (RequestException e) = str_request_exception e"
| "str_exn (ValueError m) = m"
| "str_exn (ZeroDivisionError m) = m"
| "str_exn (OtherException m) = m"

section \<open>The requests library, as far as main.py uses it\<close>

text \<open>
  \<^verbatim>\<open>response.headers\<close> and \<^verbatim>\<open>session.headers\<close> are case-insensitive dictionaries: the store
  is keyed by the lower-cased header name, and every access lower-cases its key.
\<close>

definition lower_char :: "char \<Rightarrow> char" where
  "lower_char c =
     (case map_of (zip ''ABCDEFGHIJKLMNOPQRSTUVWXYZ'' ''abcdefghijklmnopqrstuvwxyz'') c of
        None \<Rightarrow> c
      | Some d \<Rightarrow> d)"

definition lower :: "string \<Rightarrow> string" where
  "lower s = map lower_char s"

type_synonym case_insensitive_dict = "string \<rightharpoonup> string"

definition cid_get :: "case_insensitive_dict \<Rightarrow> string \<Rightarrow> string option" where
  "cid_get d k = d (lower k)"

definition cid_update :: "case_insensitive_dict \<Rightarrow> string \<Rightarrow> string \<Rightarrow> case_insensitive_dict" where
  "cid_update d k v = d(lower k \<mapsto> v)"

record response =
  status_code :: int
  reason :: string
  response_url :: string
  headers :: case_insensitive_dict

text \<open>
  \<^verbatim>\<open>response.raise_for_status()\<close>: "Raise HTTPError for bad responses (4xx or 5xx)", as the
  comment in \<^verbatim>\<open>send_request\<close> has it. The library's text of the error is the status, the
  kind of error, the reason phrase and the URL.
\<close>

definition raise_for_status :: "response \<Rightarrow> exn + unit" where
  "raise_for_status r =
     (if 400 \<le> status_code r \<and> status_code r < 500 then
        Inl (RequestException (HTTPError
          (str_int (status_code r) @ '' Client Error: '' @ reason r @ '' for url: '' @ response_url r)))
      else if 500 \<le> status_code r \<and> status_code r < 600 then
        Inl (RequestException (HTTPError
          (str_int (status_code r) @ '' Server Error: '' @ reason r @ '' for url: '' @ response_url r)))
      else Inr ())"

text \<open>
  The truth value of a \<^verbatim>\<open>Response\<close> is its \<^verbatim>\<open>ok\<close> property: whether \<^verbatim>\<open>raise_for_status\<close>
  would return without raising. The truth value of \<^verbatim>\<open>None\<close> is false.
\<close>

definition ok :: "response \<Rightarrow> bool" where
  "ok r = (case raise_for_status r of Inl _ \<Rightarrow> False | Inr _ \<Rightarrow> True)"

definition truthy :: "response option \<Rightarrow> bool" where
  "truthy x = (case x of None \<Rightarrow> False | Some r \<Rightarrow> ok r)"

text \<open>What one call of \<^verbatim>\<open>session.get\<close> does: it returns a response, or it raises.\<close>

datatype get_result = Returns response | Raises exn

section \<open>The world and the trace\<close>

datatype level = INFO | WARNING | ERROR

datatype event =
    is_Log: Log level string
  | is_Get: Get string int (sent_user_agent: "string option")
  | is_Sleep: Sleep real
  | is_Print: Print (printed: string)

text \<open>
  \<open>http w k\<close> is what the network and the library make of the \<open>k\<close>-th call of
  \<^verbatim>\<open>session.get\<close>, \<open>wall_clock w k\<close> what the \<open>k\<close>-th call of \<^verbatim>\<open>time.time\<close> returns.
  \<open>float_truediv w a b\<close> is the float that \<^verbatim>\<open>a / b\<close> gives for two ints with \<open>b\<close> not zero,
  \<open>float_sub w x y\<close> the float that \<^verbatim>\<open>x - y\<close> gives for two floats. The state counts the
  calls made so far and holds the trace. A \<open>Get\<close> event records a call of \<^verbatim>\<open>session.get\<close>,
  whether or not it gets as far as the network, with the URL, the timeout and the
  User-Agent header of the session.
\<close>

record world =
  http :: "nat \<Rightarrow> get_result"
  wall_clock :: "nat \<Rightarrow> real"
  float_truediv :: "int \<Rightarrow> int \<Rightarrow> real"
  float_sub :: "real \<Rightarrow> real \<Rightarrow> real"

record state =
  trace :: "event list"
  gets :: nat
  ticks :: nat

definition initial :: state where
  "initial = \<lparr>trace = [], gets = 0, ticks = 0\<rparr>"

definition emit :: "event \<Rightarrow> state \<Rightarrow> state" where
  "emit e s = s\<lparr>trace := trace s @ [e]\<rparr>"

definition logging :: "level \<Rightarrow> string \<Rightarrow> state \<Rightarrow> state" where
  "logging l m s = emit (Log l m) s"

definition print :: "string \<Rightarrow> state \<Rightarrow> state" where
  "print m s = emit (Print m) s"

definition time_time :: "world \<Rightarrow> state \<Rightarrow> real \<times> state" where
  "time_time w s = (wall_clock w (ticks s), s\<lparr>ticks := Suc (ticks s)\<rparr>)"

definition time_sleep :: "real \<Rightarrow> state \<Rightarrow> state" where
  "time_sleep d s = emit (Sleep d) s"

text \<open>
  \<^verbatim>\<open>a / b\<close> on two ints: true division, raising on a zero divisor. A quotient beyond the
  largest float and a suspension beyond the largest that \<^verbatim>\<open>time.sleep\<close> takes would raise
  too; they need more than nine thousand million iterations of the loop and are not
  modelled.
\<close>

definition py_truediv :: "world \<Rightarrow> int \<Rightarrow> int \<Rightarrow> exn + real" where
  "py_truediv w a b =
     (if b = 0 then Inl (ZeroDivisionError ''division by zero'')
      else Inr (float_truediv w a b))"

section \<open>RateLimitTester\<close>

record rate_limit_tester =
  url :: string
  requests_per_second :: int
  max_requests :: int
  timeout :: int
  user_agent :: string
  session_headers :: case_insensitive_dict

text \<open>
  The headers of a fresh \<^verbatim>\<open>requests.Session()\<close>. Their values depend on the installed
  library; \<^verbatim>\<open>__init__\<close> overwrites the User-Agent, and nothing below reads the others.
\<close>

definition default_headers :: case_insensitive_dict where
  "default_headers =
     cid_update (cid_update (cid_update (cid_update Map.empty
       ''User-Agent'' ''python-requests'')
       ''Accept-Encoding'' ''gzip, deflate'')
       ''Accept'' ''*/*'')
       ''Connection'' ''keep-alive''"

text \<open>
  \<^verbatim>\<open>__init__\<close>. The argument \<^verbatim>\<open>user_agent\<close> is \<^verbatim>\<open>None\<close> or a string;
  \<^verbatim>\<open>user_agent if user_agent else ...\<close> takes the default for both falsy values, \<^verbatim>\<open>None\<close>
  and the empty string.
\<close>

definition init :: "string \<Rightarrow> int \<Rightarrow> int \<Rightarrow> int \<Rightarrow> string option \<Rightarrow> rate_limit_tester" where
  "init u rps m t ua =
     (let a = (case ua of
                 None \<Rightarrow> ''vuln-Rate-Limiting-Tester/1.0''
               | Some x \<Rightarrow> if x = [] then ''vuln-Rate-Limiting-Tester/1.0'' else x)
      in \<lparr>url = u, requests_per_second = rps, max_requests = m, timeout = t, user_agent = a,
          session_headers = cid_update default_headers ''User-Agent'' a\<rparr>)"

text \<open>
  \<^verbatim>\<open>self.session.get(self.url, timeout=self.timeout)\<close>. The library checks the timeout
  after it has prepared the request and before it opens a connection: a timeout that is
  not positive makes the call raise a \<^verbatim>\<open>ValueError\<close>, so with such a timeout the call
  never returns a response; it raises that error, or whatever preparing the request
  raised before.
\<close>

definition timeout_error :: "int \<Rightarrow> exn" where
  "timeout_error t =
     ValueError (''Attempted to set connect timeout to '' @ str_int t @
       '', but the timeout cannot be set to a value less than or equal to 0.'')"

definition get_outcome :: "world \<Rightarrow> rate_limit_tester \<Rightarrow> nat \<Rightarrow> get_result" where
  "get_outcome w self k =
     (case http w k of
        Raises e \<Rightarrow> Raises e
      | Returns r \<Rightarrow>
          if timeout self \<le> 0 then Raises (timeout_error (timeout self)) else Returns r)"

definition session_get :: "world \<Rightarrow> rate_limit_tester \<Rightarrow> state \<Rightarrow> get_result \<times> state" where
  "session_get w self s =
     (get_outcome w self (gets s),
      emit (Get (url self) (timeout self) (cid_get (session_headers self) ''User-Agent''))
        (s\<lparr>gets := Suc (gets s)\<rparr>))"

text \<open>
  \<^verbatim>\<open>send_request\<close>. The body of the \<^verbatim>\<open>try\<close> yields the response or the exception raised
  in it; the \<^verbatim>\<open>except\<close> clause catches a \<^verbatim>\<open>RequestException\<close>, logs it and returns
  \<^verbatim>\<open>None\<close>; any other exception leaves the function (\<open>Inl\<close>).
\<close>

definition send_request ::
  "world \<Rightarrow> rate_limit_tester \<Rightarrow> state \<Rightarrow> (exn + response option) \<times> state" where
  "send_request w self s =
     (let (r, s1) = session_get w self s;
          body = (case r of
                    Raises e \<Rightarrow> Inl e
                  | Returns response \<Rightarrow>
                      (case raise_for_status response of
                         Inl e \<Rightarrow> Inl e
                       | Inr _ \<Rightarrow> Inr response))
      in case body of
           Inl (RequestException e) \<Rightarrow>
             (Inr None, logging ERROR (''Request failed: '' @ str_exn (RequestException e)) s1)
         | Inl e \<Rightarrow> (Inl e, s1)
         | Inr response \<Rightarrow> (Inr (Some response), s1))"

text \<open>
  \<^verbatim>\<open>analyze_response\<close> builds a dict with six keys, in this order. It is a record here;
  \<open>items\<close> lists its keys and the text of its values in the order of insertion.
\<close>

record rate_limit_info =
  info_status_code :: int
  x_ratelimit_limit :: "string option"
  x_ratelimit_remaining :: "string option"
  x_ratelimit_reset :: "string option"
  retry_after :: "string option"
  content_length :: "string option"

definition analyze_response :: "response option \<Rightarrow> rate_limit_info option" where
  "analyze_response response =
     (if \<not> truthy response then None
      else case response of
        None \<Rightarrow> None
      | Some r \<Rightarrow>
          Some \<lparr>info_status_code = status_code r,
                x_ratelimit_limit = cid_get (headers r) ''X-RateLimit-Limit'',
                x_ratelimit_remaining = cid_get (headers r) ''X-RateLimit-Remaining'',
                x_ratelimit_reset = cid_get (headers r) ''X-RateLimit-Reset'',
                retry_after = cid_get (headers r) ''Retry-After'',
                content_length = cid_get (headers r) ''Content-Length''\<rparr>)"

definition items :: "rate_limit_info \<Rightarrow> (string \<times> string) list" where
  "items d =
     [(''status_code'', str_int (info_status_code d)),
      (''x_ratelimit_limit'', str_opt (x_ratelimit_limit d)),
      (''x_ratelimit_remaining'', str_opt (x_ratelimit_remaining d)),
      (''x_ratelimit_reset'', str_opt (x_ratelimit_reset d)),
      (''retry_after'', str_opt (retry_after d)),
      (''content_length'', str_opt (content_length d))]"

subsection \<open>test_rate_limiting\<close>

text \<open>\<^verbatim>\<open>range(n)\<close>: empty when \<open>n\<close> is not positive.\<close>

definition py_range :: "int \<Rightarrow> int list" where
  "py_range n = map int [0..<nat n]"

text \<open>A \<^verbatim>\<open>for\<close> loop over a list: the body runs on each element in turn, and an exception ends it.\<close>

fun for_each ::
  "('i \<Rightarrow> 'a \<Rightarrow> state \<Rightarrow> (exn + 'a) \<times> state) \<Rightarrow> 'i list \<Rightarrow> 'a \<Rightarrow> state \<Rightarrow> (exn + 'a) \<times> state" where
  "for_each body [] a s = (Inr a, s)"
| "for_each body (i # is) a s =
     (case body i a s of
        (Inl e, s') \<Rightarrow> (Inl e, s')
      | (Inr a', s') \<Rightarrow> for_each body is a' s')"

text \<open>The body of the loop of \<^verbatim>\<open>test_rate_limiting\<close>, lines 88 to 101, at index \<open>i\<close>.\<close>

definition attempt ::
  "world \<Rightarrow> rate_limit_tester \<Rightarrow> real \<Rightarrow> int \<Rightarrow> rate_limit_info option list \<Rightarrow> state
     \<Rightarrow> (exn + rate_limit_info option list) \<times> state" where
  "attempt w self start_time i responses s =
     (case send_request w self s of
        (Inl e, s1) \<Rightarrow> (Inl e, s1)
      | (Inr response, s1) \<Rightarrow>
          (let (responses', s2) =
                 (if truthy response then
                    (responses @ [analyze_response response],
                     if i mod 10 = 0
                     then logging INFO (''Sent '' @ str_int (i + 1) @ '' requests'') s1
                     else s1)
                  else
                    (responses @ [None],
                     logging WARNING ''Request failed, skipping analysis.'' s1));
               (now, s3) = time_time w s2;
               elapsed_time = float_sub w now start_time
           in case py_truediv w (i + 1) (requests_per_second self) of
                Inl e \<Rightarrow> (Inl e, s3)
              | Inr target \<Rightarrow>
                  (let sleep_time = float_sub w target elapsed_time
                   in (Inr responses',
                       if sleep_time > 0 then time_sleep sleep_time s3 else s3))))"

definition test_rate_limiting ::
  "world \<Rightarrow> rate_limit_tester \<Rightarrow> state \<Rightarrow> (exn + rate_limit_info option list) \<times> state" where
  "test_rate_limiting w self s =
     (let s1 = logging INFO (''Starting rate limiting test against '' @ url self) s;
          (start_time, s2) = time_time w s1
      in case for_each (attempt w self start_time) (py_range (max_requests self)) [] s2 of
           (Inl e, s3) \<Rightarrow> (Inl e, s3)
         | (Inr responses, s3) \<Rightarrow>
             (Inr responses, logging INFO ''Rate limiting test completed.'' s3))"

subsection \<open>report_results\<close>

text \<open>The body of the loop of \<^verbatim>\<open>report_results\<close>; the counters are the accumulator.\<close>

definition report_entry ::
  "nat \<times> rate_limit_info option \<Rightarrow> (int \<times> int) \<times> state \<Rightarrow> (int \<times> int) \<times> state" where
  "report_entry ir acc =
     (let (i, result) = ir;
          ((blocked_count, error_count), s) = acc;
          s1 = print (CHR 0x0A # ''Request #'' @ str_int (int i + 1) @ '':'') s
      in case result of
           None \<Rightarrow> ((blocked_count, error_count + 1), print ''  Request Failed.'' s1)
         | Some d \<Rightarrow>
             (let s2 = fold (\<lambda>(key, v). print (''  '' @ key @ '': '' @ v)) (items d) s1
              in if info_status_code d \<in> set [429, 503]
                 then ((blocked_count + 1, error_count), s2)
                 else ((blocked_count, error_count), s2)))"

definition report_results :: "rate_limit_info option list \<Rightarrow> state \<Rightarrow> state" where
  "report_results responses s =
     (if responses = [] then logging WARNING ''No responses to report.'' s
      else
        (let s1 = print (CHR 0x0A # ''--- Rate Limiting Test Results ---'') s;
             ((blocked_count, error_count), s2) =
                fold report_entry (List.enumerate 0 responses) ((0, 0), s1);
             s3 = print (CHR 0x0A # ''--- Summary ---'') s2;
             s4 = print (''Total Requests: '' @ str_int (int (length responses))) s3;
             s5 = print (''Blocked Requests (429/503): '' @ str_int blocked_count) s4;
             s6 = print (''Failed Requests: '' @ str_int error_count) s5
         in if blocked_count > 0
            then print (CHR 0x0A # ''Possible Rate Limiting Detected.'') s6
            else print (CHR 0x0A # ''No Rate Limiting Appears to be in Effect.'') s6))"

section \<open>main\<close>

text \<open>
  The parsed command line. \<^verbatim>\<open>--verbose\<close> lowers the logging threshold to DEBUG; the
  program logs at INFO and above only, so the flag changes nothing in the trace.
\<close>

record args =
  args_url :: string
  args_requests_per_second :: int
  args_max_requests :: int
  args_timeout :: int
  args_user_agent :: "string option"
  args_verbose :: bool

definition startswith :: "string \<Rightarrow> string \<Rightarrow> bool" where
  "startswith s p = (take (length p) s = p)"

text \<open>
  \<^verbatim>\<open>main\<close> returns the exit status and the final state. The \<^verbatim>\<open>try\<close> body yields the
  exception raised in it, if any; the first handler takes a \<^verbatim>\<open>ValueError\<close>, the second
  every other exception; both exit with status 1.
\<close>

definition main :: "world \<Rightarrow> args \<Rightarrow> int \<times> state" where
  "main w a =
     (let body =
            (if \<not> (startswith (args_url a) ''http://'' \<or> startswith (args_url a) ''https://'')
             then (Inl (ValueError ''URL must start with http:// or https://''), initial)
             else
               (let tester = init (args_url a) (args_requests_per_second a)
                               (args_max_requests a) (args_timeout a) (args_user_agent a)
                in case test_rate_limiting w tester initial of
                     (Inl e, s) \<Rightarrow> (Inl e, s)
                   | (Inr responses, s) \<Rightarrow> (Inr (), report_results responses s)))
      in case body of
           (Inl (ValueError m), s) \<Rightarrow>
             (1, logging ERROR (''Invalid input: '' @ str_exn (ValueError m)) s)
         | (Inl e, s) \<Rightarrow>
             (1, logging ERROR (''An unexpected error occurred: '' @ str_exn e) s)
         | (Inr _, s) \<Rightarrow> (0, s))"

section \<open>What one request, one iteration and one report line produce\<close>

text \<open>
  These functions are not in the source. They write out the value and the events of one
  call of \<^verbatim>\<open>send_request\<close>, of one iteration of the pacing loop and of one pass of the
  reporting loop; the lemmas below prove that the program produces exactly them.
\<close>

definition sent :: "world \<Rightarrow> rate_limit_tester \<Rightarrow> nat \<Rightarrow> response option" where
  "sent w self g =
     (case get_outcome w self g of
        Raises e \<Rightarrow> None
      | Returns r \<Rightarrow> (case raise_for_status r of Inl e \<Rightarrow> None | Inr _ \<Rightarrow> Some r))"

text \<open>
  The exception that the \<open>g\<close>-th call of \<^verbatim>\<open>session.get\<close> lets out of \<^verbatim>\<open>send_request\<close>, if
  any: \<open>None\<close> when the call returns or raises a request exception.
\<close>

definition raised :: "world \<Rightarrow> rate_limit_tester \<Rightarrow> nat \<Rightarrow> exn option" where
  "raised w self g =
     (case get_outcome w self g of
        Returns r \<Rightarrow> None
      | Raises e \<Rightarrow> (case e of RequestException x \<Rightarrow> None | _ \<Rightarrow> Some e))"

definition send_events :: "world \<Rightarrow> rate_limit_tester \<Rightarrow> nat \<Rightarrow> event list" where
  "send_events w self g =
     Get (url self) (timeout self) (cid_get (session_headers self) ''User-Agent'') #
     (case get_outcome w self g of
        Raises e \<Rightarrow>
          (case e of
             RequestException x \<Rightarrow> [Log ERROR (''Request failed: '' @ str_request_exception x)]
           | _ \<Rightarrow> [])
      | Returns r \<Rightarrow>
          (case raise_for_status r of
             Inl e \<Rightarrow> [Log ERROR (''Request failed: '' @ str_exn e)]
           | Inr _ \<Rightarrow> []))"

definition record_events :: "world \<Rightarrow> rate_limit_tester \<Rightarrow> nat \<Rightarrow> int \<Rightarrow> event list" where
  "record_events w self g i =
     (case sent w self g of
        None \<Rightarrow> [Log WARNING ''Request failed, skipping analysis.'']
      | Some r \<Rightarrow>
          if i mod 10 = 0 then [Log INFO (''Sent '' @ str_int (i + 1) @ '' requests'')] else [])"

definition sleep_time :: "world \<Rightarrow> rate_limit_tester \<Rightarrow> real \<Rightarrow> nat \<Rightarrow> int \<Rightarrow> real" where
  "sleep_time w self start_time k i =
     float_sub w (float_truediv w (i + 1) (requests_per_second self))
       (float_sub w (wall_clock w k) start_time)"

definition pacing_events :: "world \<Rightarrow> rate_limit_tester \<Rightarrow> real \<Rightarrow> nat \<Rightarrow> int \<Rightarrow> event list" where
  "pacing_events w self start_time k i =
     (if sleep_time w self start_time k i > 0
      then [Sleep (sleep_time w self start_time k i)] else [])"

definition iteration_events ::
  "world \<Rightarrow> rate_limit_tester \<Rightarrow> real \<Rightarrow> nat \<Rightarrow> nat \<Rightarrow> int \<Rightarrow> event list" where
  "iteration_events w self start_time g k i =
     send_events w self g @ record_events w self g i @ pacing_events w self start_time k i"

text \<open>
  How many of \<open>n\<close> attempts, the first of them making the \<open>g\<close>-th call of \<^verbatim>\<open>session.get\<close>,
  come before the first call that lets an exception out.
\<close>

fun completed :: "world \<Rightarrow> rate_limit_tester \<Rightarrow> nat \<Rightarrow> nat \<Rightarrow> nat" where
  "completed w self g 0 = 0"
| "completed w self g (Suc n) =
     (if raised w self g = None then Suc (completed w self (Suc g) n) else 0)"

text \<open>A record is blocked when it is present and its status code is 429 or 503.\<close>

definition blocked :: "rate_limit_info option \<Rightarrow> bool" where
  "blocked x =
     (case x of None \<Rightarrow> False | Some d \<Rightarrow> info_status_code d = 429 \<or> info_status_code d = 503)"

definition entry_lines :: "nat \<times> rate_limit_info option \<Rightarrow> event list" where
  "entry_lines ir =
     Print (CHR 0x0A # ''Request #'' @ str_int (int (fst ir) + 1) @ '':'') #
     (case snd ir of
        None \<Rightarrow> [Print ''  Request Failed.'']
      | Some d \<Rightarrow> map (\<lambda>kv. Print (''  '' @ fst kv @ '': '' @ snd kv)) (items d))"

section \<open>Concrete inputs\<close>

definition respond :: "int \<Rightarrow> string \<Rightarrow> response" where
  "respond code phrase =
     \<lparr>status_code = code, reason = phrase, response_url = ''http://example.com/'',
      headers = cid_update Map.empty ''Retry-After'' ''30''\<rparr>"

text \<open>
  A world where every request has the same outcome and the clock advances an eighth of a
  second per reading. Its quotient and difference are the exact ones; the theorems below
  use it with rates and readings on which the operations on doubles are exact as well.
\<close>

definition steady :: "get_result \<Rightarrow> world" where
  "steady g =
     \<lparr>http = (\<lambda>k. g), wall_clock = (\<lambda>k. real k / 8),
      float_truediv = (\<lambda>a b. real_of_int a / real_of_int b), float_sub = (\<lambda>x y. x - y)\<rparr>"

definition command_line :: "string \<Rightarrow> int \<Rightarrow> int \<Rightarrow> string option \<Rightarrow> args" where
  "command_line u rps m ua =
     \<lparr>args_url = u, args_requests_per_second = rps, args_max_requests = m, args_timeout = 5,
      args_user_agent = ua, args_verbose = False\<rparr>"

text \<open>A record with the given status code and no rate-limit header.\<close>

definition bare :: "int \<Rightarrow> rate_limit_info" where
  "bare code =
     \<lparr>info_status_code = code, x_ratelimit_limit = None, x_ratelimit_remaining = None,
      x_ratelimit_reset = None, retry_after = None, content_length = None\<rparr>"

section \<open>The constructor\<close>

lemma url_init [simp]: "url (init u rps m t ua) = u"
  and requests_per_second_init [simp]: "requests_per_second (init u rps m t ua) = rps"
  and max_requests_init [simp]: "max_requests (init u rps m t ua) = m"
  and timeout_init [simp]: "timeout (init u rps m t ua) = t"
  by (simp_all add: init_def Let_def)

lemma trace_initial [simp]: "trace initial = []"
  and gets_initial [simp]: "gets initial = 0"
  and ticks_initial [simp]: "ticks initial = 0"
  by (simp_all add: initial_def)

lemma user_agent_header_init:
  "cid_get (session_headers (init u rps m t ua)) ''User-Agent'' = Some (user_agent (init u rps m t ua))"
  by (simp add: init_def Let_def cid_get_def cid_update_def)

section \<open>send_request\<close>

lemma raise_for_status_cases:
  "raise_for_status r = Inr () \<or> (\<exists>m. raise_for_status r = Inl (RequestException (HTTPError m)))"
  by (simp add: raise_for_status_def)

lemma send_request_eq:
  "send_request w self s =
     ((case raised w self (gets s) of Some e \<Rightarrow> Inl e | None \<Rightarrow> Inr (sent w self (gets s))),
      s\<lparr>trace := trace s @ send_events w self (gets s), gets := Suc (gets s)\<rparr>)"
proof (cases "get_outcome w self (gets s)")
  case (Raises e)
  then show ?thesis
    by (cases e)
       (simp_all add: send_request_def session_get_def sent_def raised_def send_events_def
          logging_def emit_def)
next
  case (Returns r)
  from raise_for_status_cases [of r] show ?thesis
  proof
    assume "raise_for_status r = Inr ()"
    with Returns show ?thesis
      by (simp add: send_request_def session_get_def sent_def raised_def send_events_def
            logging_def emit_def)
  next
    assume "\<exists>m. raise_for_status r = Inl (RequestException (HTTPError m))"
    then obtain m where "raise_for_status r = Inl (RequestException (HTTPError m))" ..
    with Returns show ?thesis
      by (simp add: send_request_def session_get_def sent_def raised_def send_events_def
            logging_def emit_def)
  qed
qed

lemma sent_eq:
  "sent w self g =
     (case get_outcome w self g of
        Raises e \<Rightarrow> None
      | Returns r \<Rightarrow> if 400 \<le> status_code r \<and> status_code r < 600 then None else Some r)"
  by (simp add: sent_def raise_for_status_def split: get_result.splits)

lemma sent_Some_ok: "sent w self g = Some r \<Longrightarrow> ok r"
  by (auto simp: ok_def sent_def split: get_result.splits sum.splits)

text \<open>
  C2, as the code has it. \<^verbatim>\<open>send_request\<close> returns \<^verbatim>\<open>None\<close> exactly when \<^verbatim>\<open>session.get\<close>
  raises a request exception (timeout, connection error or any other) or the response has
  a 4xx or 5xx status, 429 and 503 among them; every other completed response, 2xx or not,
  is returned as it is; and an exception of \<^verbatim>\<open>session.get\<close> that is not a request
  exception leaves \<^verbatim>\<open>send_request\<close>.
\<close>

theorem send_request_result:
  "fst (send_request w self s) =
     (case get_outcome w self (gets s) of
        Raises e \<Rightarrow> (case e of RequestException x \<Rightarrow> Inr None | _ \<Rightarrow> Inl e)
      | Returns r \<Rightarrow>
          if 400 \<le> status_code r \<and> status_code r < 600 then Inr None else Inr (Some r))"
  by (simp add: send_request_eq sent_eq raised_def split: get_result.splits exn.splits)

text \<open>
  The claim C2 as stated fails: a completed response with status 304 is not a 2xx response,
  and \<^verbatim>\<open>send_request\<close> returns it.
\<close>

theorem send_request_returns_304:
  "fst (send_request (steady (Returns (respond 304 ''Not Modified'')))
          (init ''http://example.com/'' 10 50 5 None) initial)
     = Inr (Some (respond 304 ''Not Modified''))
   \<and> \<not> (200 \<le> status_code (respond 304 ''Not Modified'')
        \<and> status_code (respond 304 ''Not Modified'') < 300)"
  by (simp add: send_request_eq sent_eq raised_def get_outcome_def init_def Let_def steady_def
        respond_def initial_def)

section \<open>analyze_response\<close>

text \<open>
  C8, as the code has it. \<^verbatim>\<open>analyze_response\<close> is a total function that never raises.
  For a response whose status is not 4xx or 5xx it returns the record of the status code
  and of the five headers, each read case-insensitively, an absent header giving an absent
  field. For \<^verbatim>\<open>None\<close> and for a response with a 4xx or 5xx status, whose truth value is
  false, the guard \<^verbatim>\<open>if not response\<close> makes it return \<^verbatim>\<open>None\<close>.
\<close>

theorem analyze_response_result:
  "analyze_response x =
     (case x of
        None \<Rightarrow> None
      | Some r \<Rightarrow>
          if 400 \<le> status_code r \<and> status_code r < 600 then None
          else Some \<lparr>info_status_code = status_code r,
                     x_ratelimit_limit = headers r ''x-ratelimit-limit'',
                     x_ratelimit_remaining = headers r ''x-ratelimit-remaining'',
                     x_ratelimit_reset = headers r ''x-ratelimit-reset'',
                     retry_after = headers r ''retry-after'',
                     content_length = headers r ''content-length''\<rparr>)"
  by (simp add: analyze_response_def truthy_def ok_def raise_for_status_def cid_get_def
        lower_def lower_char_def split: option.splits)

text \<open>A 200 response carrying \<^verbatim>\<open>Retry-After: 30\<close> gives a record whose field is \<^verbatim>\<open>"30"\<close>.\<close>

theorem analyze_response_retry_after:
  "map_option retry_after (analyze_response (Some (respond 200 ''OK''))) = Some (Some ''30'')
   \<and> map_option x_ratelimit_limit (analyze_response (Some (respond 200 ''OK''))) = Some None"
  using analyze_response_result [of "Some (respond 200 ''OK'')"]
  by (simp add: respond_def cid_update_def lower_def lower_char_def)

text \<open>
  The claim C8 as stated fails: a 429 response carrying \<^verbatim>\<open>Retry-After: 30\<close> gives no
  record at all.
\<close>

theorem analyze_response_429_is_None:
  "analyze_response (Some (respond 429 ''Too Many Requests'')) = None
   \<and> cid_get (headers (respond 429 ''Too Many Requests'')) ''Retry-After'' = Some ''30''"
  by (simp add: analyze_response_def truthy_def ok_def raise_for_status_def respond_def
        cid_get_def cid_update_def lower_def lower_char_def)

section \<open>report_results\<close>

lemma fold_print:
  "fold (\<lambda>(key, v). print (f key v)) kvs s =
     s\<lparr>trace := trace s @ map (\<lambda>kv. Print (f (fst kv) (snd kv))) kvs\<rparr>"
  by (induction kvs arbitrary: s) (auto simp: print_def emit_def)

lemma report_entry_eq:
  "report_entry ir ((b, e), s) =
     ((b + (if blocked (snd ir) then 1 else 0), e + (if snd ir = None then 1 else 0)),
      s\<lparr>trace := trace s @ entry_lines ir\<rparr>)"
proof (cases ir)
  case (Pair i result)
  show ?thesis
  proof (cases result)
    case None
    with Pair show ?thesis
      by (simp add: report_entry_def entry_lines_def blocked_def print_def emit_def)
  next
    case (Some d)
    with Pair show ?thesis
      by (simp add: report_entry_def entry_lines_def blocked_def fold_print)
         (simp add: print_def emit_def)
  qed
qed

lemma fold_report_entry:
  "fold report_entry irs ((b, e), s) =
     ((b + int (length (filter (\<lambda>ir. blocked (snd ir)) irs)),
       e + int (length (filter (\<lambda>ir. snd ir = None) irs))),
      s\<lparr>trace := trace s @ concat (map entry_lines irs)\<rparr>)"
  by (induction irs arbitrary: b e s) (simp_all add: report_entry_eq)

lemma blocked_enumerate:
  "length (filter (\<lambda>ir. blocked (snd ir)) (List.enumerate n xs)) = length (filter blocked xs)"
  by (induction xs arbitrary: n) simp_all

lemma failed_enumerate:
  "length (filter (\<lambda>ir. snd ir = None) (List.enumerate n xs)) = length (filter (\<lambda>x. x = None) xs)"
  by (induction xs arbitrary: n) simp_all

lemma report_results_nonempty:
  assumes "responses \<noteq> []"
  shows "report_results responses s =
     s\<lparr>trace := trace s @
          Print (CHR 0x0A # ''--- Rate Limiting Test Results ---'') #
          concat (map entry_lines (List.enumerate 0 responses)) @
          [Print (CHR 0x0A # ''--- Summary ---''),
           Print (''Total Requests: '' @ str_int (int (length responses))),
           Print (''Blocked Requests (429/503): '' @ str_int (int (length (filter blocked responses)))),
           Print (''Failed Requests: '' @ str_int (int (length (filter (\<lambda>x. x = None) responses)))),
           Print (if 0 < length (filter blocked responses)
                  then CHR 0x0A # ''Possible Rate Limiting Detected.''
                  else CHR 0x0A # ''No Rate Limiting Appears to be in Effect.'')]\<rparr>"
proof (cases "filter blocked responses = []")
  case True
  with assms show ?thesis
    by (simp add: report_results_def fold_report_entry blocked_enumerate failed_enumerate
          print_def emit_def)
next
  case False
  with assms show ?thesis
    by (simp add: report_results_def fold_report_entry blocked_enumerate failed_enumerate
          print_def emit_def)
qed

text \<open>
  C9. Called with an empty list, \<^verbatim>\<open>report_results\<close> logs one warning and returns: the
  trace gains that one event and no \<open>Print\<close> event, and nothing else changes.
\<close>

theorem report_results_empty:
  "report_results [] s = s\<lparr>trace := trace s @ [Log WARNING ''No responses to report.'']\<rparr>
   \<and> filter is_Print (trace (report_results [] s)) = filter is_Print (trace s)"
  by (simp add: report_results_def logging_def emit_def)

text \<open>
  C3, as the code has it. For a list that is not empty, \<^verbatim>\<open>report_results\<close> prints the
  heading, the lines of every entry in order, and then the summary: the number of entries,
  the number of blocked ones (present, with status code 429 or 503), the number of failed
  ones (absent), and last the verdict, which is "Possible Rate Limiting Detected." when the
  blocked count is positive and "No Rate Limiting Appears to be in Effect." otherwise.
\<close>

theorem report_results_summary:
  assumes "responses \<noteq> []"
  shows "trace (report_results responses s) =
     trace s @
     Print (CHR 0x0A # ''--- Rate Limiting Test Results ---'') #
     concat (map entry_lines (List.enumerate 0 responses)) @
     [Print (CHR 0x0A # ''--- Summary ---''),
      Print (''Total Requests: '' @ str_int (int (length responses))),
      Print (''Blocked Requests (429/503): '' @ str_int (int (length (filter blocked responses)))),
      Print (''Failed Requests: '' @ str_int (int (length (filter (\<lambda>x. x = None) responses)))),
      Print (if 0 < length (filter blocked responses)
             then CHR 0x0A # ''Possible Rate Limiting Detected.''
             else CHR 0x0A # ''No Rate Limiting Appears to be in Effect.'')]"
  by (simp add: report_results_nonempty [OF assms])

text \<open>
  Five results, two of them blocked and two failed.
\<close>

theorem report_results_summary_witness:
  "[Some (bare 429), None, Some (bare 200), Some (bare 503), None] \<noteq> []
   \<and> drop 26 (trace (report_results [Some (bare 429), None, Some (bare 200), Some (bare 503), None] initial)) =
     [Print (CHR 0x0A # ''--- Summary ---''),
      Print ''Total Requests: 5'',
      Print ''Blocked Requests (429/503): 2'',
      Print ''Failed Requests: 2'',
      Print (CHR 0x0A # ''Possible Rate Limiting Detected.'')]"
  using report_results_summary [of "[Some (bare 429), None, Some (bare 200), Some (bare 503), None]" initial]
  by (simp add: initial_def blocked_def bare_def entry_lines_def items_def enumerate_eq_zip
        str_int_def str_nat.simps str_opt_def)

text \<open>
  The claim C3 as stated fails on the empty list: no record is blocked, and neither
  verdict is printed.
\<close>

theorem report_results_empty_no_verdict:
  "length (filter blocked []) = 0
   \<and> Print (CHR 0x0A # ''No Rate Limiting Appears to be in Effect.'')
        \<notin> set (trace (report_results [] initial))
   \<and> Print (CHR 0x0A # ''Possible Rate Limiting Detected.'')
        \<notin> set (trace (report_results [] initial))"
  by (simp add: report_results_def logging_def emit_def initial_def)

section \<open>The pacing loop\<close>

text \<open>
  One iteration. An exception that leaves \<^verbatim>\<open>send_request\<close> ends the iteration after the
  call of \<^verbatim>\<open>session.get\<close>; with a rate of zero the division raises after the request and
  the clock reading; otherwise the iteration appends one entry and produces the events of
  the request, of the bookkeeping and of the pacing.
\<close>

lemma attempt_eq:
  "attempt w self start_time i responses s =
     (case raised w self (gets s) of
        Some e \<Rightarrow>
          (Inl e, s\<lparr>trace := trace s @ send_events w self (gets s), gets := Suc (gets s)\<rparr>)
      | None \<Rightarrow>
          if requests_per_second self = 0 then
            (Inl (ZeroDivisionError ''division by zero''),
             s\<lparr>trace := trace s @ send_events w self (gets s) @ record_events w self (gets s) i,
               gets := Suc (gets s), ticks := Suc (ticks s)\<rparr>)
          else
            (Inr (responses @ [analyze_response (sent w self (gets s))]),
             s\<lparr>trace := trace s @ iteration_events w self start_time (gets s) (ticks s) i,
               gets := Suc (gets s), ticks := Suc (ticks s)\<rparr>))"
proof (cases "raised w self (gets s)")
  case (Some e)
  then show ?thesis
    by (simp add: attempt_def send_request_eq)
next
  case None
  note clean = None
  show ?thesis
  proof (cases "sent w self (gets s)")
    case None
    with clean show ?thesis
      by (simp add: attempt_def send_request_eq record_events_def pacing_events_def
          sleep_time_def py_truediv_def time_time_def time_sleep_def logging_def emit_def
          analyze_response_def truthy_def iteration_events_def)
  next
    case (Some r)
    then have "truthy (Some r)"
      by (simp add: truthy_def sent_Some_ok)
    with Some clean show ?thesis
      by (simp add: attempt_def send_request_eq record_events_def pacing_events_def
          sleep_time_def py_truediv_def time_time_def time_sleep_def logging_def emit_def
          iteration_events_def)
  qed
qed

lemma completed_all:
  "(\<forall>k<n. raised w self (g + k) = None) \<Longrightarrow> completed w self g n = n"
proof (induction n arbitrary: g)
  case 0
  show ?case by simp
next
  case (Suc n)
  from Suc.prems have first: "raised w self (g + 0) = None"
    by blast
  have "\<forall>k<n. raised w self (Suc g + k) = None"
  proof (intro allI impI)
    fix k assume "k < n"
    then have "Suc k < Suc n" by simp
    with Suc.prems have "raised w self (g + Suc k) = None" by blast
    then show "raised w self (Suc g + k) = None" by simp
  qed
  then have "completed w self (Suc g) n = n"
    by (rule Suc.IH)
  with first show ?case by simp
qed

lemma completed_le: "completed w self g n \<le> n"
  by (induction n arbitrary: g) simp_all


text \<open>
  The loop, for a rate that is not zero: it runs the attempts that come before the first
  call letting an exception out, and ends in that call if there is one.
\<close>

lemma for_each_attempt:
  assumes "requests_per_second self \<noteq> 0"
  shows "for_each (attempt w self st) (map int [j..<j + n]) rs s =
     (if completed w self (gets s) n = n then
        (Inr (rs @ map (\<lambda>k. analyze_response (sent w self (gets s + k))) [0..<n]),
         s\<lparr>trace := trace s @
               concat (map (\<lambda>k. iteration_events w self st (gets s + k) (ticks s + k) (int (j + k)))
                         [0..<n]),
           gets := gets s + n, ticks := ticks s + n\<rparr>)
      else
        (Inl (the (raised w self (gets s + completed w self (gets s) n))),
         s\<lparr>trace := trace s @
               concat (map (\<lambda>k. iteration_events w self st (gets s + k) (ticks s + k) (int (j + k)))
                         [0..<completed w self (gets s) n]) @
               send_events w self (gets s + completed w self (gets s) n),
           gets := Suc (gets s + completed w self (gets s) n),
           ticks := ticks s + completed w self (gets s) n\<rparr>))"
proof (induction n arbitrary: j rs s)
  case 0
  show ?case by simp
next
  case (Suc n)
  have split: "[j..<j + Suc n] = j # [Suc j..<Suc j + n]"
    by (simp add: upt_conv_Cons)
  show ?case
  proof (cases "raised w self (gets s)")
    case (Some e)
    then have step: "attempt w self st (int j) rs s =
       (Inl e, s\<lparr>trace := trace s @ send_events w self (gets s), gets := Suc (gets s)\<rparr>)"
      by (simp add: attempt_eq)
    have "for_each (attempt w self st) (map int [j..<j + Suc n]) rs s =
       (Inl e, s\<lparr>trace := trace s @ send_events w self (gets s), gets := Suc (gets s)\<rparr>)"
      unfolding split by (simp add: step)
    with Some show ?thesis
      by simp
  next
    case None
    then have step: "attempt w self st (int j) rs s =
       (Inr (rs @ [analyze_response (sent w self (gets s))]),
        s\<lparr>trace := trace s @ iteration_events w self st (gets s) (ticks s) (int j),
          gets := Suc (gets s), ticks := Suc (ticks s)\<rparr>)"
      using assms by (simp add: attempt_eq)
    have "for_each (attempt w self st) (map int [j..<j + Suc n]) rs s =
          for_each (attempt w self st) (map int [Suc j..<Suc j + n])
            (rs @ [analyze_response (sent w self (gets s))])
            (s\<lparr>trace := trace s @ iteration_events w self st (gets s) (ticks s) (int j),
               gets := Suc (gets s), ticks := Suc (ticks s)\<rparr>)"
      unfolding split by (simp add: step)
    also have "\<dots> =
     (if completed w self (gets s) (Suc n) = Suc n then
        (Inr (rs @ map (\<lambda>k. analyze_response (sent w self (gets s + k))) [0..<Suc n]),
         s\<lparr>trace := trace s @
               concat (map (\<lambda>k. iteration_events w self st (gets s + k) (ticks s + k) (int (j + k)))
                         [0..<Suc n]),
           gets := gets s + Suc n, ticks := ticks s + Suc n\<rparr>)
      else
        (Inl (the (raised w self (gets s + completed w self (gets s) (Suc n)))),
         s\<lparr>trace := trace s @
               concat (map (\<lambda>k. iteration_events w self st (gets s + k) (ticks s + k) (int (j + k)))
                         [0..<completed w self (gets s) (Suc n)]) @
               send_events w self (gets s + completed w self (gets s) (Suc n)),
           gets := Suc (gets s + completed w self (gets s) (Suc n)),
           ticks := ticks s + completed w self (gets s) (Suc n)\<rparr>))"
      unfolding Suc.IH using None by (simp add: map_upt_Suc ac_simps del: upt_Suc)
    finally show ?thesis .
  qed
qed

lemma test_rate_limiting_nonzero:
  assumes "requests_per_second self \<noteq> 0"
  shows "test_rate_limiting w self s =
     (if completed w self (gets s) (nat (max_requests self)) = nat (max_requests self) then
        (Inr (map (\<lambda>k. analyze_response (sent w self (gets s + k))) [0..<nat (max_requests self)]),
         s\<lparr>trace := trace s @
               Log INFO (''Starting rate limiting test against '' @ url self) #
               concat (map (\<lambda>k. iteration_events w self (wall_clock w (ticks s))
                                   (gets s + k) (Suc (ticks s) + k) (int k))
                         [0..<nat (max_requests self)]) @
               [Log INFO ''Rate limiting test completed.''],
           gets := gets s + nat (max_requests self),
           ticks := Suc (ticks s) + nat (max_requests self)\<rparr>)
      else
        (Inl (the (raised w self (gets s + completed w self (gets s) (nat (max_requests self))))),
         s\<lparr>trace := trace s @
               Log INFO (''Starting rate limiting test against '' @ url self) #
               concat (map (\<lambda>k. iteration_events w self (wall_clock w (ticks s))
                                   (gets s + k) (Suc (ticks s) + k) (int k))
                         [0..<completed w self (gets s) (nat (max_requests self))]) @
               send_events w self (gets s + completed w self (gets s) (nat (max_requests self))),
           gets := Suc (gets s + completed w self (gets s) (nat (max_requests self))),
           ticks := Suc (ticks s) + completed w self (gets s) (nat (max_requests self))\<rparr>))"
  using for_each_attempt [OF assms, of w "wall_clock w (ticks s)" 0 "nat (max_requests self)" "[]"
          "s\<lparr>trace := trace s @ [Log INFO (''Starting rate limiting test against '' @ url self)],
             ticks := Suc (ticks s)\<rparr>"]
  by (simp add: test_rate_limiting_def py_range_def time_time_def logging_def emit_def)

lemma test_rate_limiting_zero:
  assumes "requests_per_second self = 0"
  shows "test_rate_limiting w self s =
     (if max_requests self \<le> 0 then
        (Inr [],
         s\<lparr>trace := trace s @
               [Log INFO (''Starting rate limiting test against '' @ url self),
                Log INFO ''Rate limiting test completed.''],
           ticks := Suc (ticks s)\<rparr>)
      else
        (case raised w self (gets s) of
           Some e \<Rightarrow>
             (Inl e,
              s\<lparr>trace := trace s @
                    Log INFO (''Starting rate limiting test against '' @ url self) #
                    send_events w self (gets s),
                gets := Suc (gets s), ticks := Suc (ticks s)\<rparr>)
         | None \<Rightarrow>
             (Inl (ZeroDivisionError ''division by zero''),
              s\<lparr>trace := trace s @
                    Log INFO (''Starting rate limiting test against '' @ url self) #
                    send_events w self (gets s) @ record_events w self (gets s) 0,
                gets := Suc (gets s), ticks := Suc (Suc (ticks s))\<rparr>)))"
proof (cases "max_requests self \<le> 0")
  case True
  then show ?thesis
    by (simp add: test_rate_limiting_def py_range_def time_time_def logging_def emit_def)
next
  case False
  then have upt: "[0..<nat (max_requests self)] = 0 # [Suc 0..<nat (max_requests self)]"
    by (simp add: upt_conv_Cons)
  show ?thesis
  proof (cases "raised w self (gets s)")
    case None
    with False assms upt show ?thesis
      by (simp add: test_rate_limiting_def py_range_def time_time_def logging_def emit_def
            attempt_eq)
  next
    case (Some e)
    with False assms upt show ?thesis
      by (simp add: test_rate_limiting_def py_range_def time_time_def logging_def emit_def
            attempt_eq)
  qed
qed

text \<open>
  A run in which no call of \<^verbatim>\<open>session.get\<close> lets an exception out, and a run in which the
  call at index \<open>k\<close> is the first that does.
\<close>

lemma test_rate_limiting_clean:
  assumes "requests_per_second self \<noteq> 0"
    and "\<forall>k<nat (max_requests self). raised w self (gets s + k) = None"
  shows "test_rate_limiting w self s =
     (Inr (map (\<lambda>k. analyze_response (sent w self (gets s + k))) [0..<nat (max_requests self)]),
      s\<lparr>trace := trace s @
            Log INFO (''Starting rate limiting test against '' @ url self) #
            concat (map (\<lambda>k. iteration_events w self (wall_clock w (ticks s))
                                (gets s + k) (Suc (ticks s) + k) (int k))
                      [0..<nat (max_requests self)]) @
            [Log INFO ''Rate limiting test completed.''],
        gets := gets s + nat (max_requests self),
        ticks := Suc (ticks s) + nat (max_requests self)\<rparr>)"
  by (simp add: test_rate_limiting_nonzero [OF assms(1)] completed_all [OF assms(2)])







lemma filter_pacing_iteration:
  "filter (\<lambda>e. is_Get e \<or> is_Sleep e) (iteration_events w self st g k i) =
     Get (url self) (timeout self) (cid_get (session_headers self) ''User-Agent'') #
     pacing_events w self st k i"
  by (simp add: iteration_events_def send_events_def record_events_def pacing_events_def
        split: get_result.splits sum.splits option.splits exn.splits)

lemma filter_pacing_send:
  "filter (\<lambda>e. is_Get e \<or> is_Sleep e) (send_events w self g) =
     [Get (url self) (timeout self) (cid_get (session_headers self) ''User-Agent'')]"
  by (simp add: send_events_def split: get_result.splits sum.splits exn.splits)

text \<open>
  C5. With a positive rate \<open>R\<close>, the calls of \<^verbatim>\<open>session.get\<close> and the suspensions of a run
  are, for each index \<open>i\<close> in order, one call followed by one suspension: the target is the
  float quotient \<open>(i + 1) / R\<close>, the elapsed time is the float difference of the clock
  reading of this iteration and the reading taken before the loop, and the suspension
  lasts the float difference of the two when that is positive; there is no suspension
  when it is zero or negative. This holds for every attempt that the run completes, that
  is for all of them unless a call of \<^verbatim>\<open>session.get\<close> lets an exception out; such a call
  is the last event of the run.
\<close>

theorem pacing_sleeps:
  assumes "0 < requests_per_second self"
  shows "filter (\<lambda>e. is_Get e \<or> is_Sleep e) (trace (snd (test_rate_limiting w self s))) =
     filter (\<lambda>e. is_Get e \<or> is_Sleep e) (trace s) @
     concat (map (\<lambda>i.
         Get (url self) (timeout self) (cid_get (session_headers self) ''User-Agent'') #
         (let target_elapsed = float_truediv w (int i + 1) (requests_per_second self);
              actual_elapsed = float_sub w (wall_clock w (Suc (ticks s) + i)) (wall_clock w (ticks s));
              difference = float_sub w target_elapsed actual_elapsed
          in if difference > 0 then [Sleep difference] else []))
       [0..<completed w self (gets s) (nat (max_requests self))]) @
     (if completed w self (gets s) (nat (max_requests self)) < nat (max_requests self)
      then [Get (url self) (timeout self) (cid_get (session_headers self) ''User-Agent'')]
      else [])"
proof (cases "completed w self (gets s) (nat (max_requests self)) = nat (max_requests self)")
  case True
  from assms have nz: "requests_per_second self \<noteq> 0" by simp
  from True show ?thesis
    by (simp add: test_rate_limiting_nonzero [OF nz] filter_concat comp_def
          filter_pacing_iteration pacing_events_def sleep_time_def Let_def
          add.commute cong: if_cong)
next
  case False
  from assms have nz: "requests_per_second self \<noteq> 0" by simp
  from False completed_le [of w self "gets s" "nat (max_requests self)"]
  have less: "completed w self (gets s) (nat (max_requests self)) < nat (max_requests self)"
    by simp
  from False less show ?thesis
    by (simp add: test_rate_limiting_nonzero [OF nz] filter_concat comp_def
          filter_pacing_iteration filter_pacing_send pacing_events_def sleep_time_def Let_def
          add.commute cong: if_cong)
qed

text \<open>
  Four requests per second, each clock reading an eighth of a second after the one
  before: the run is ahead of the rate and sleeps. Eight requests per second with the same
  clock: the run is exactly on time and never sleeps.
\<close>

theorem pacing_sleeps_witness:
  "0 < requests_per_second (init ''http://example.com/'' 4 3 5 None)
   \<and> filter (\<lambda>e. is_Get e \<or> is_Sleep e)
       (trace (snd (test_rate_limiting (steady (Returns (respond 200 ''OK'')))
                      (init ''http://example.com/'' 4 3 5 None) initial))) =
     [Get ''http://example.com/'' 5 (Some ''vuln-Rate-Limiting-Tester/1.0''), Sleep (1 / 8),
      Get ''http://example.com/'' 5 (Some ''vuln-Rate-Limiting-Tester/1.0''), Sleep (1 / 4),
      Get ''http://example.com/'' 5 (Some ''vuln-Rate-Limiting-Tester/1.0''), Sleep (3 / 8)]
   \<and> 0 < requests_per_second (init ''http://example.com/'' 8 3 5 None)
   \<and> filter (\<lambda>e. is_Get e \<or> is_Sleep e)
       (trace (snd (test_rate_limiting (steady (Returns (respond 200 ''OK'')))
                      (init ''http://example.com/'' 8 3 5 None) initial))) =
     [Get ''http://example.com/'' 5 (Some ''vuln-Rate-Limiting-Tester/1.0''),
      Get ''http://example.com/'' 5 (Some ''vuln-Rate-Limiting-Tester/1.0''),
      Get ''http://example.com/'' 5 (Some ''vuln-Rate-Limiting-Tester/1.0'')]"
proof -
  have c: "completed (steady (Returns (respond 200 ''OK''))) (init ''http://example.com/'' r 3 5 None)
             (gets initial) (nat (max_requests (init ''http://example.com/'' r 3 5 None)))
           = nat (max_requests (init ''http://example.com/'' r 3 5 None))" for r
    by (rule completed_all) (simp add: raised_def get_outcome_def steady_def)
  show ?thesis
    using c [of 4] c [of 8]
      pacing_sleeps [of "init ''http://example.com/'' 4 3 5 None"
          "steady (Returns (respond 200 ''OK''))" initial]
      pacing_sleeps [of "init ''http://example.com/'' 8 3 5 None"
          "steady (Returns (respond 200 ''OK''))" initial]
    by (simp add: init_def Let_def initial_def steady_def cid_get_def cid_update_def
          upt_conv_Cons)
qed

lemma progress_in_record_events:
  "Log INFO m \<in> set (record_events w self g i)
     \<longleftrightarrow> i mod 10 = 0 \<and> sent w self g \<noteq> None \<and> m = ''Sent '' @ str_int (i + 1) @ '' requests''"
  by (auto simp: record_events_def split: option.splits)

lemma progress_not_in_send_events:
  "Log INFO m \<notin> set (send_events w self g)"
  by (simp add: send_events_def split: get_result.splits sum.splits exn.splits)

lemma progress_not_in_pacing_events:
  "Log l m \<notin> set (pacing_events w self st k i)"
  by (simp add: pacing_events_def)

text \<open>
  C6, as the code has it. The iteration at index \<open>i\<close> logs "Sent i+1 requests" exactly
  when \<open>i\<close> is a multiple of 10 and the request succeeded, that is when \<^verbatim>\<open>send_request\<close>
  returned a response: the call is in the branch \<^verbatim>\<open>if response\<close>.
\<close>

theorem progress_only_on_success:
  "Log INFO (''Sent '' @ str_int (i + 1) @ '' requests'')
      \<in> set (drop (length (trace s)) (trace (snd (attempt w self start_time i responses s))))
   \<longleftrightarrow> i mod 10 = 0 \<and> (\<exists>r. fst (send_request w self s) = Inr (Some r))"
proof (cases "raised w self (gets s)")
  case (Some e)
  then show ?thesis
    by (simp add: attempt_eq send_request_eq progress_not_in_send_events)
next
  case None
  then show ?thesis
    by (simp add: attempt_eq send_request_eq iteration_events_def progress_in_record_events
          progress_not_in_send_events progress_not_in_pacing_events)
qed

text \<open>
  The claim C6 as stated fails: index 0 is a multiple of 10, and a run whose only
  request times out logs no progress.
\<close>

theorem no_progress_on_failure:
  "(0::int) mod 10 = 0
   \<and> Log INFO ''Sent 1 requests''
        \<notin> set (trace (snd (test_rate_limiting (steady (Raises (RequestException (Timeout ''timed out''))))
                  (init ''http://example.com/'' 8 1 5 None) initial)))
   \<and> gets (snd (test_rate_limiting (steady (Raises (RequestException (Timeout ''timed out''))))
                  (init ''http://example.com/'' 8 1 5 None) initial)) = 1"
proof -
  have nz: "requests_per_second (init ''http://example.com/'' 8 1 5 None) \<noteq> 0"
    by (simp add: init_def Let_def)
  have clean: "\<forall>k<nat (max_requests (init ''http://example.com/'' 8 1 5 None)).
      raised (steady (Raises (RequestException (Timeout ''timed out''))))
        (init ''http://example.com/'' 8 1 5 None) (gets initial + k) = None"
    by (simp add: raised_def get_outcome_def steady_def)
  show ?thesis
    by (simp add: test_rate_limiting_clean [OF nz clean])
       (simp add: init_def Let_def initial_def steady_def iteration_events_def send_events_def
          record_events_def pacing_events_def sent_def get_outcome_def)
qed

section \<open>The events of a whole run\<close>

text \<open>
  Every event of \<^verbatim>\<open>test_rate_limiting\<close> is a call of \<^verbatim>\<open>session.get\<close> with the headers of
  the session, a suspension, the error logged by \<^verbatim>\<open>send_request\<close>, or a warning or an
  information; every event of \<^verbatim>\<open>report_results\<close> is a printed line or a warning. A run
  starts with its "Starting" line, and a run that raises has called \<^verbatim>\<open>session.get\<close>.
\<close>

lemma send_events_cases:
  "e \<in> set (send_events w self g) \<Longrightarrow>
     e = Get (url self) (timeout self) (cid_get (session_headers self) ''User-Agent'')
     \<or> (\<exists>m. e = Log ERROR (''Request failed: '' @ m))"
  by (auto simp: send_events_def split: get_result.splits sum.splits exn.splits)

lemma record_events_cases:
  "e \<in> set (record_events w self g i) \<Longrightarrow> (\<exists>m. e = Log WARNING m) \<or> (\<exists>m. e = Log INFO m)"
  by (auto simp: record_events_def split: option.splits if_splits)

lemma pacing_events_cases:
  "e \<in> set (pacing_events w self st k i) \<Longrightarrow> is_Sleep e"
  by (auto simp: pacing_events_def split: if_splits)

lemma entry_lines_cases:
  "e \<in> set (entry_lines ir) \<Longrightarrow> is_Print e"
  by (auto simp: entry_lines_def split: option.splits)

lemma iteration_events_cases:
  assumes "e \<in> set (iteration_events w self st g k i)"
  shows "e = Get (url self) (timeout self) (cid_get (session_headers self) ''User-Agent'')
       \<or> is_Sleep e
       \<or> (\<exists>m. e = Log ERROR (''Request failed: '' @ m))
       \<or> (\<exists>m. e = Log WARNING m)
       \<or> (\<exists>m. e = Log INFO m)"
proof -
  from assms have "e \<in> set (send_events w self g) \<or> e \<in> set (record_events w self g i)
      \<or> e \<in> set (pacing_events w self st k i)"
    by (simp add: iteration_events_def)
  then show ?thesis
    using send_events_cases [of e w self g] record_events_cases [of e w self g i]
      pacing_events_cases [of e w self st k i]
    by blast
qed

lemma test_rate_limiting_event:
  assumes "e \<in> set (trace (snd (test_rate_limiting w self s)))"
  shows "e \<in> set (trace s)
       \<or> e = Get (url self) (timeout self) (cid_get (session_headers self) ''User-Agent'')
       \<or> is_Sleep e
       \<or> (\<exists>m. e = Log ERROR (''Request failed: '' @ m))
       \<or> (\<exists>m. e = Log WARNING m)
       \<or> (\<exists>m. e = Log INFO m)"
proof (cases "requests_per_second self = 0")
  case True
  with assms have "e \<in> set (trace s) \<or> (\<exists>m. e = Log INFO m)
      \<or> e \<in> set (send_events w self (gets s)) \<or> e \<in> set (record_events w self (gets s) 0)"
    by (auto simp: test_rate_limiting_zero split: if_splits option.splits)
  then show ?thesis
    using send_events_cases [of e w self "gets s"] record_events_cases [of e w self "gets s" 0]
    by blast
next
  case False
  with assms have "e \<in> set (trace s) \<or> (\<exists>m. e = Log INFO m)
      \<or> (\<exists>k. e \<in> set (iteration_events w self (wall_clock w (ticks s)) (gets s + k)
                          (Suc (ticks s) + k) (int k)))
      \<or> (\<exists>g. e \<in> set (send_events w self g))"
    by (auto simp: test_rate_limiting_nonzero split: if_splits)
  then show ?thesis
    using iteration_events_cases [of e w self "wall_clock w (ticks s)"]
      send_events_cases [of e w self]
    by blast
qed

lemma test_rate_limiting_start:
  "\<exists>rest. trace (snd (test_rate_limiting w self s)) =
     trace s @ Log INFO (''Starting rate limiting test against '' @ url self) # rest"
  by (cases "requests_per_second self = 0")
     (auto simp: test_rate_limiting_zero test_rate_limiting_nonzero split: option.splits)

lemma test_rate_limiting_first_get:
  assumes "0 < max_requests self"
  shows "\<exists>rest. trace (snd (test_rate_limiting w self s)) =
     trace s @ Log INFO (''Starting rate limiting test against '' @ url self) #
     Get (url self) (timeout self) (cid_get (session_headers self) ''User-Agent'') # rest"
proof -
  from assms have upt: "[0..<nat (max_requests self)] = 0 # [Suc 0..<nat (max_requests self)]"
    by (simp add: upt_conv_Cons)
  show ?thesis
  proof (cases "requests_per_second self = 0")
    case True
    with assms show ?thesis
      by (auto simp: test_rate_limiting_zero send_events_def split: option.splits)
  next
    case False
    note nz = False
    show ?thesis
    proof (cases "completed w self (gets s) (nat (max_requests self)) = nat (max_requests self)")
      case True
      with nz show ?thesis
        by (simp add: test_rate_limiting_nonzero upt iteration_events_def send_events_def)
    next
      case False
      note stop = False
      show ?thesis
      proof (cases "completed w self (gets s) (nat (max_requests self))")
        case 0
        with nz stop show ?thesis
          by (simp add: test_rate_limiting_nonzero send_events_def)
      next
        case (Suc c)
        have "[0..<Suc c] = 0 # [Suc 0..<Suc c]"
          by (simp add: upt_conv_Cons)
        with nz stop Suc show ?thesis
          by (simp add: test_rate_limiting_nonzero iteration_events_def send_events_def
                del: upt_Suc)
      qed
    qed
  qed
qed

lemma test_rate_limiting_raises:
  "fst (test_rate_limiting w self s) = Inl e \<Longrightarrow> gets s < gets (snd (test_rate_limiting w self s))"
  by (cases "requests_per_second self = 0")
     (auto simp: test_rate_limiting_zero test_rate_limiting_nonzero
        split: if_splits option.splits)

lemma report_results_event:
  assumes "e \<in> set (trace (report_results responses s))"
  shows "e \<in> set (trace s) \<or> is_Print e \<or> (\<exists>m. e = Log WARNING m)"
proof (cases "responses = []")
  case True
  with assms show ?thesis
    by (auto simp: report_results_def logging_def emit_def)
next
  case False
  with assms show ?thesis
    using entry_lines_cases [of e]
    by (auto simp: report_results_nonempty)
qed

lemma report_results_counters:
  "gets (report_results responses s) = gets s \<and> ticks (report_results responses s) = ticks s"
  by (cases "responses = []")
     (simp_all add: report_results_nonempty, simp add: report_results_def logging_def emit_def)

lemma report_results_trace:
  "\<exists>rest. trace (report_results responses s) = trace s @ rest"
  by (cases "responses = []")
     (simp_all add: report_results_nonempty, simp add: report_results_def logging_def emit_def)

section \<open>main and its validation\<close>

lemma main_invalid:
  assumes "\<not> (startswith (args_url a) ''http://'' \<or> startswith (args_url a) ''https://'')"
  shows "main w a =
     (1, \<lparr>trace = [Log ERROR ''Invalid input: URL must start with http:// or https://''],
          gets = 0, ticks = 0\<rparr>)"
  using assms by (simp add: main_def initial_def logging_def emit_def)

lemma main_valid:
  assumes "startswith (args_url a) ''http://'' \<or> startswith (args_url a) ''https://''"
  shows "main w a =
     (case test_rate_limiting w
             (init (args_url a) (args_requests_per_second a) (args_max_requests a)
                (args_timeout a) (args_user_agent a)) initial of
        (Inl e, s) \<Rightarrow>
          (1, logging ERROR
                ((case e of ValueError m \<Rightarrow> ''Invalid input: ''
                  | _ \<Rightarrow> ''An unexpected error occurred: '') @ str_exn e) s)
      | (Inr responses, s) \<Rightarrow> (0, report_results responses s))"
proof (cases "test_rate_limiting w
             (init (args_url a) (args_requests_per_second a) (args_max_requests a)
                (args_timeout a) (args_user_agent a)) initial")
  case (Pair r s)
  show ?thesis
  proof (cases r)
    case (Inl e)
    with Pair assms show ?thesis
      by (cases e) (simp_all add: main_def Let_def)
  next
    case (Inr responses)
    with Pair assms show ?thesis
      by (simp add: main_def Let_def)
  qed
qed

lemma main_trace:
  assumes "startswith (args_url a) ''http://'' \<or> startswith (args_url a) ''https://''"
  shows "\<exists>rest. trace (snd (main w a)) =
     trace (snd (test_rate_limiting w
             (init (args_url a) (args_requests_per_second a) (args_max_requests a)
                (args_timeout a) (args_user_agent a)) initial)) @ rest"
proof (cases "test_rate_limiting w
             (init (args_url a) (args_requests_per_second a) (args_max_requests a)
                (args_timeout a) (args_user_agent a)) initial")
  case (Pair r s)
  show ?thesis
  proof (cases r)
    case (Inl e)
    with Pair show ?thesis
      by (simp add: main_valid [OF assms] logging_def emit_def)
  next
    case (Inr responses)
    with Pair show ?thesis
      using report_results_trace [of responses s]
      by (simp add: main_valid [OF assms])
  qed
qed

text \<open>
  C7. A URL that starts with neither \<^verbatim>\<open>http://\<close> nor \<^verbatim>\<open>https://\<close> makes \<^verbatim>\<open>main\<close> log
  the error "Invalid input: URL must start with http:// or https://" and exit with status
  1; that log entry is the whole trace, so \<^verbatim>\<open>session.get\<close> was not called. A URL that
  starts with one of them is not rejected by the validation: \<^verbatim>\<open>main\<close> is the run followed
  by the report, or by the handler of the exception that the run raised; the first event
  is the "Starting" line of the run; the exit status is 0, or it is 1 after at least one
  call of \<^verbatim>\<open>session.get\<close>; an "Invalid input" error is logged only for a \<^verbatim>\<open>ValueError\<close>
  raised in the run, with the text of that error; and when the rate is not zero and no
  call of \<^verbatim>\<open>session.get\<close> lets an exception out, the exit status is 0 after
  \<^verbatim>\<open>max_requests\<close> calls.
\<close>

theorem url_validation:
  "(\<not> (startswith (args_url a) ''http://'' \<or> startswith (args_url a) ''https://'') \<longrightarrow>
      main w a =
        (1, \<lparr>trace = [Log ERROR ''Invalid input: URL must start with http:// or https://''],
             gets = 0, ticks = 0\<rparr>))
   \<and> (startswith (args_url a) ''http://'' \<or> startswith (args_url a) ''https://'' \<longrightarrow>
      main w a =
        (case test_rate_limiting w
                (init (args_url a) (args_requests_per_second a) (args_max_requests a)
                   (args_timeout a) (args_user_agent a)) initial of
           (Inl e, s) \<Rightarrow>
             (1, logging ERROR
                   ((case e of ValueError m \<Rightarrow> ''Invalid input: ''
                     | _ \<Rightarrow> ''An unexpected error occurred: '') @ str_exn e) s)
         | (Inr responses, s) \<Rightarrow> (0, report_results responses s))
      \<and> (\<exists>rest. trace (snd (main w a)) =
            Log INFO (''Starting rate limiting test against '' @ args_url a) # rest)
      \<and> (fst (main w a) = 0 \<or> fst (main w a) = 1 \<and> 0 < gets (snd (main w a)))
      \<and> (\<forall>m. Log ERROR (''Invalid input: '' @ m) \<in> set (trace (snd (main w a))) \<longrightarrow>
            fst (test_rate_limiting w
                   (init (args_url a) (args_requests_per_second a) (args_max_requests a)
                      (args_timeout a) (args_user_agent a)) initial) = Inl (ValueError m))
      \<and> (args_requests_per_second a \<noteq> 0
           \<and> (\<forall>k<nat (args_max_requests a).
                 raised w (init (args_url a) (args_requests_per_second a) (args_max_requests a)
                             (args_timeout a) (args_user_agent a)) k = None) \<longrightarrow>
            fst (main w a) = 0 \<and> gets (snd (main w a)) = nat (args_max_requests a)))"
proof (intro conjI impI allI)
  assume "\<not> (startswith (args_url a) ''http://'' \<or> startswith (args_url a) ''https://'')"
  then show "main w a =
        (1, \<lparr>trace = [Log ERROR ''Invalid input: URL must start with http:// or https://''],
             gets = 0, ticks = 0\<rparr>)"
    by (rule main_invalid)
next
  assume valid: "startswith (args_url a) ''http://'' \<or> startswith (args_url a) ''https://''"
  then show "main w a =
        (case test_rate_limiting w
                (init (args_url a) (args_requests_per_second a) (args_max_requests a)
                   (args_timeout a) (args_user_agent a)) initial of
           (Inl e, s) \<Rightarrow>
             (1, logging ERROR
                   ((case e of ValueError m \<Rightarrow> ''Invalid input: ''
                     | _ \<Rightarrow> ''An unexpected error occurred: '') @ str_exn e) s)
         | (Inr responses, s) \<Rightarrow> (0, report_results responses s))"
    by (rule main_valid)
next
  assume valid: "startswith (args_url a) ''http://'' \<or> startswith (args_url a) ''https://''"
  from main_trace [OF valid, of w]
    test_rate_limiting_start [of w "init (args_url a) (args_requests_per_second a)
       (args_max_requests a) (args_timeout a) (args_user_agent a)" initial]
  show "\<exists>rest. trace (snd (main w a)) =
            Log INFO (''Starting rate limiting test against '' @ args_url a) # rest"
    by (auto simp: initial_def)
next
  assume valid: "startswith (args_url a) ''http://'' \<or> startswith (args_url a) ''https://''"
  define self where "self = init (args_url a) (args_requests_per_second a) (args_max_requests a)
                (args_timeout a) (args_user_agent a)"
  obtain r s where run: "test_rate_limiting w self initial = (r, s)"
    by (cases "test_rate_limiting w self initial")
  show "fst (main w a) = 0 \<or> fst (main w a) = 1 \<and> 0 < gets (snd (main w a))"
  proof (cases r)
    case (Inl e)
    with run test_rate_limiting_raises [of w self initial e] have "0 < gets s"
      by simp
    with run Inl show ?thesis
      by (simp add: main_valid [OF valid] self_def [symmetric] logging_def emit_def)
  next
    case (Inr responses)
    with run show ?thesis
      by (simp add: main_valid [OF valid] self_def [symmetric])
  qed
next
  fix m
  assume valid: "startswith (args_url a) ''http://'' \<or> startswith (args_url a) ''https://''"
    and logged: "Log ERROR (''Invalid input: '' @ m) \<in> set (trace (snd (main w a)))"
  define self where "self = init (args_url a) (args_requests_per_second a) (args_max_requests a)
                (args_timeout a) (args_user_agent a)"
  obtain r s where run: "test_rate_limiting w self initial = (r, s)"
    by (cases "test_rate_limiting w self initial")
  have not_run: "Log ERROR (''Invalid input: '' @ m) \<notin> set (trace s)"
  proof
    assume "Log ERROR (''Invalid input: '' @ m) \<in> set (trace s)"
    then have "Log ERROR (''Invalid input: '' @ m) \<in> set (trace (snd (test_rate_limiting w self initial)))"
      by (simp add: run)
    from test_rate_limiting_event [OF this] show False
      by (auto simp: initial_def)
  qed
  have "r = Inl (ValueError m)"
  proof (cases r)
    case (Inl e)
    with run logged not_run show ?thesis
      by (cases e)
         (simp_all add: main_valid [OF valid] self_def [symmetric] logging_def emit_def)
  next
    case (Inr responses)
    with run logged have "Log ERROR (''Invalid input: '' @ m) \<in> set (trace (report_results responses s))"
      by (simp add: main_valid [OF valid] self_def [symmetric])
    from report_results_event [OF this] not_run show ?thesis
      by auto
  qed
  with run show "fst (test_rate_limiting w
                   (init (args_url a) (args_requests_per_second a) (args_max_requests a)
                      (args_timeout a) (args_user_agent a)) initial) = Inl (ValueError m)"
    by (simp add: self_def)
next
  assume valid: "startswith (args_url a) ''http://'' \<or> startswith (args_url a) ''https://''"
    and h: "args_requests_per_second a \<noteq> 0
           \<and> (\<forall>k<nat (args_max_requests a).
                 raised w (init (args_url a) (args_requests_per_second a) (args_max_requests a)
                             (args_timeout a) (args_user_agent a)) k = None)"
  define self where "self = init (args_url a) (args_requests_per_second a) (args_max_requests a)
                (args_timeout a) (args_user_agent a)"
  from h have nz: "requests_per_second self \<noteq> 0"
    and clean: "\<forall>k<nat (max_requests self). raised w self (gets initial + k) = None"
    by (simp_all add: self_def)
  show "fst (main w a) = 0"
    by (simp add: main_valid [OF valid] self_def [symmetric]
          test_rate_limiting_clean [OF nz clean])
next
  assume valid: "startswith (args_url a) ''http://'' \<or> startswith (args_url a) ''https://''"
    and h: "args_requests_per_second a \<noteq> 0
           \<and> (\<forall>k<nat (args_max_requests a).
                 raised w (init (args_url a) (args_requests_per_second a) (args_max_requests a)
                             (args_timeout a) (args_user_agent a)) k = None)"
  define self where "self = init (args_url a) (args_requests_per_second a) (args_max_requests a)
                (args_timeout a) (args_user_agent a)"
  from h have nz: "requests_per_second self \<noteq> 0"
    and clean: "\<forall>k<nat (max_requests self). raised w self (gets initial + k) = None"
    by (simp_all add: self_def)
  have "max_requests self = args_max_requests a"
    by (simp add: self_def)
  then show "gets (snd (main w a)) = nat (args_max_requests a)"
    by (simp add: main_valid [OF valid] self_def [symmetric]
          test_rate_limiting_clean [OF nz clean] report_results_counters)
qed

text \<open>
  An \<^verbatim>\<open>ftp\<close> URL is rejected with nothing sent; an \<^verbatim>\<open>https\<close> URL is not rejected, and
  with two requests that are answered the program calls \<^verbatim>\<open>session.get\<close> twice and exits
  with status 0.
\<close>

theorem url_validation_witness:
  "\<not> (startswith (args_url (command_line ''ftp://example.com/'' 8 2 None)) ''http://''
       \<or> startswith (args_url (command_line ''ftp://example.com/'' 8 2 None)) ''https://'')
   \<and> main (steady (Returns (respond 200 ''OK''))) (command_line ''ftp://example.com/'' 8 2 None) =
        (1, \<lparr>trace = [Log ERROR ''Invalid input: URL must start with http:// or https://''],
             gets = 0, ticks = 0\<rparr>)
   \<and> (startswith (args_url (command_line ''https://example.com/'' 8 2 None)) ''http://''
       \<or> startswith (args_url (command_line ''https://example.com/'' 8 2 None)) ''https://'')
   \<and> args_requests_per_second (command_line ''https://example.com/'' 8 2 None) \<noteq> 0
   \<and> fst (main (steady (Returns (respond 200 ''OK'')))
            (command_line ''https://example.com/'' 8 2 None)) = 0
   \<and> gets (snd (main (steady (Returns (respond 200 ''OK'')))
            (command_line ''https://example.com/'' 8 2 None))) = 2"
proof -
  have invalid: "\<not> (startswith (args_url (command_line ''ftp://example.com/'' 8 2 None)) ''http://''
       \<or> startswith (args_url (command_line ''ftp://example.com/'' 8 2 None)) ''https://'')"
    by (simp add: command_line_def startswith_def)
  have valid: "startswith (args_url (command_line ''https://example.com/'' 8 2 None)) ''http://''
       \<or> startswith (args_url (command_line ''https://example.com/'' 8 2 None)) ''https://''"
    by (simp add: command_line_def startswith_def)
  have clean: "args_requests_per_second (command_line ''https://example.com/'' 8 2 None) \<noteq> 0
    \<and> (\<forall>k<nat (args_max_requests (command_line ''https://example.com/'' 8 2 None)).
      raised (steady (Returns (respond 200 ''OK'')))
        (init (args_url (command_line ''https://example.com/'' 8 2 None))
           (args_requests_per_second (command_line ''https://example.com/'' 8 2 None))
           (args_max_requests (command_line ''https://example.com/'' 8 2 None))
           (args_timeout (command_line ''https://example.com/'' 8 2 None))
           (args_user_agent (command_line ''https://example.com/'' 8 2 None))) k = None)"
    by (simp add: raised_def get_outcome_def steady_def command_line_def)
  note rejected = url_validation [of "command_line ''ftp://example.com/'' 8 2 None"
      "steady (Returns (respond 200 ''OK''))", THEN conjunct1, THEN mp, OF invalid]
  note accepted = url_validation [of "command_line ''https://example.com/'' 8 2 None"
      "steady (Returns (respond 200 ''OK''))", THEN conjunct2, THEN mp, OF valid]
  note completes = accepted [THEN conjunct2, THEN conjunct2, THEN conjunct2, THEN conjunct2,
      THEN mp, OF clean]
  from invalid valid clean rejected completes show ?thesis
    by (simp add: command_line_def)
qed

section \<open>The User-Agent\<close>

text \<open>
  C10. A tester constructed with \<^verbatim>\<open>user_agent\<close> \<^verbatim>\<open>None\<close> or the empty string has the
  default User-Agent "vuln-Rate-Limiting-Tester/1.0"; constructed with a string that is not
  empty, it has that string. Every request of a run carries the User-Agent of the tester
  in its headers.
\<close>

theorem default_user_agent:
  "(ua = None \<or> ua = Some [] \<longrightarrow>
      user_agent (init u rps m t ua) = ''vuln-Rate-Limiting-Tester/1.0'')
   \<and> (\<forall>x. ua = Some x \<and> x \<noteq> [] \<longrightarrow> user_agent (init u rps m t ua) = x)
   \<and> (\<forall>e \<in> set (trace (snd (test_rate_limiting w (init u rps m t ua) initial))).
        is_Get e \<longrightarrow> sent_user_agent e = Some (user_agent (init u rps m t ua)))"
proof (intro conjI ballI impI allI)
  assume "ua = None \<or> ua = Some []"
  then show "user_agent (init u rps m t ua) = ''vuln-Rate-Limiting-Tester/1.0''"
    by (auto simp: init_def Let_def)
next
  fix x assume "ua = Some x \<and> x \<noteq> []"
  then show "user_agent (init u rps m t ua) = x"
    by (simp add: init_def Let_def)
next
  fix e
  assume "e \<in> set (trace (snd (test_rate_limiting w (init u rps m t ua) initial)))"
    and get: "is_Get e"
  from test_rate_limiting_event [OF this(1)] get
  have "e = Get (url (init u rps m t ua)) (timeout (init u rps m t ua))
              (cid_get (session_headers (init u rps m t ua)) ''User-Agent'')"
    by (auto simp: initial_def)
  then show "sent_user_agent e = Some (user_agent (init u rps m t ua))"
    by (simp add: user_agent_header_init)
qed

text \<open>
  The empty string gives the default on both requests of a run; a custom string is kept.
\<close>

theorem default_user_agent_witness:
  "(Some [] = (None :: string option) \<or> Some [] = Some ([] :: string))
   \<and> user_agent (init ''http://example.com/'' 8 2 5 (Some [])) = ''vuln-Rate-Limiting-Tester/1.0''
   \<and> (Some ''MyCustomAgent/1.0'' = Some ''MyCustomAgent/1.0'' \<and> ''MyCustomAgent/1.0'' \<noteq> [])
   \<and> user_agent (init ''http://example.com/'' 8 2 5 (Some ''MyCustomAgent/1.0'')) = ''MyCustomAgent/1.0''
   \<and> map sent_user_agent (filter is_Get (trace (snd (test_rate_limiting
         (steady (Returns (respond 200 ''OK'')))
         (init ''http://example.com/'' 8 2 5 (Some [])) initial)))) =
       [Some ''vuln-Rate-Limiting-Tester/1.0'', Some ''vuln-Rate-Limiting-Tester/1.0'']"
proof -
  have nz: "requests_per_second (init ''http://example.com/'' 8 2 5 (Some [])) \<noteq> 0"
    by simp
  have clean: "\<forall>k<nat (max_requests (init ''http://example.com/'' 8 2 5 (Some []))).
      raised (steady (Returns (respond 200 ''OK'')))
        (init ''http://example.com/'' 8 2 5 (Some [])) (gets initial + k) = None"
    by (simp add: raised_def get_outcome_def steady_def)
  have "map sent_user_agent (filter is_Get (trace (snd (test_rate_limiting
         (steady (Returns (respond 200 ''OK'')))
         (init ''http://example.com/'' 8 2 5 (Some [])) initial)))) =
       [Some ''vuln-Rate-Limiting-Tester/1.0'', Some ''vuln-Rate-Limiting-Tester/1.0'']"
    unfolding test_rate_limiting_clean [OF nz clean]
    by (simp add: upt_conv_Cons iteration_events_def
          send_events_def record_events_def pacing_events_def sent_def
          user_agent_header_init split: get_result.splits sum.splits exn.splits)
       (simp add: init_def Let_def)
  then show ?thesis
    using default_user_agent [of "Some []" "''http://example.com/''" 8 2 5]
      default_user_agent [of "Some ''MyCustomAgent/1.0''" "''http://example.com/''" 8 2 5]
    by simp
qed

section \<open>A rate that is not positive\<close>

text \<open>
  C4, as the code has it. \<^verbatim>\<open>main\<close> validates the URL only. With a valid URL, a positive
  count and a rate that is zero or negative, the run starts and \<^verbatim>\<open>session.get\<close> is called
  before anything is rejected. With a rate of zero the program exits with status 1 after
  that one call. With a negative rate, when no call of \<^verbatim>\<open>session.get\<close> lets an exception
  out, the run goes through all \<^verbatim>\<open>max_requests\<close> attempts, reads the clock for the pacing
  in each of them, and exits with status 0.
\<close>

theorem nonpositive_rate_not_rejected:
  assumes "startswith (args_url a) ''http://'' \<or> startswith (args_url a) ''https://''"
    and "args_requests_per_second a \<le> 0"
    and "0 < args_max_requests a"
  shows "(\<exists>ua rest. trace (snd (main w a)) =
            Log INFO (''Starting rate limiting test against '' @ args_url a) #
            Get (args_url a) (args_timeout a) ua # rest)
       \<and> (args_requests_per_second a = 0 \<longrightarrow>
            fst (main w a) = 1 \<and> gets (snd (main w a)) = 1)
       \<and> (args_requests_per_second a < 0
            \<and> (\<forall>k<nat (args_max_requests a).
                  raised w (init (args_url a) (args_requests_per_second a) (args_max_requests a)
                              (args_timeout a) (args_user_agent a)) k = None) \<longrightarrow>
            fst (main w a) = 0
            \<and> int (gets (snd (main w a))) = args_max_requests a
            \<and> int (ticks (snd (main w a))) = 1 + args_max_requests a)"
proof -
  define self where "self = init (args_url a) (args_requests_per_second a) (args_max_requests a)
                (args_timeout a) (args_user_agent a)"
  have first: "\<exists>ua rest. trace (snd (main w a)) =
            Log INFO (''Starting rate limiting test against '' @ args_url a) #
            Get (args_url a) (args_timeout a) ua # rest"
  proof -
    from assms(3) have "0 < max_requests self"
      by (simp add: self_def)
    from test_rate_limiting_first_get [OF this, of w initial] main_trace [OF assms(1), of w]
    show ?thesis
      by (auto simp: initial_def self_def)
  qed
  have zero: "fst (main w a) = 1 \<and> gets (snd (main w a)) = 1"
    if z: "args_requests_per_second a = 0"
  proof -
    from z have rz: "requests_per_second self = 0"
      by (simp add: self_def)
    from assms(3) have pos: "\<not> max_requests self \<le> 0"
      by (simp add: self_def)
    show ?thesis
    proof (cases "raised w self (gets initial)")
      case None
      with pos show ?thesis
        by (simp add: main_valid [OF assms(1)] self_def [symmetric]
              test_rate_limiting_zero [OF rz] logging_def emit_def initial_def)
    next
      case (Some e)
      with pos show ?thesis
        by (simp add: main_valid [OF assms(1)] self_def [symmetric]
              test_rate_limiting_zero [OF rz] logging_def emit_def initial_def)
    qed
  qed
  have negative: "fst (main w a) = 0
            \<and> int (gets (snd (main w a))) = args_max_requests a
            \<and> int (ticks (snd (main w a))) = 1 + args_max_requests a"
    if h: "args_requests_per_second a < 0
            \<and> (\<forall>k<nat (args_max_requests a).
                  raised w (init (args_url a) (args_requests_per_second a) (args_max_requests a)
                              (args_timeout a) (args_user_agent a)) k = None)"
  proof -
    from h have nz: "requests_per_second self \<noteq> 0"
      and clean: "\<forall>k<nat (max_requests self). raised w self (gets initial + k) = None"
      by (simp_all add: self_def)
    have m: "max_requests self = args_max_requests a"
      by (simp add: self_def)
    from assms(3) m show ?thesis
      by (simp add: main_valid [OF assms(1)] self_def [symmetric]
            test_rate_limiting_clean [OF nz clean] report_results_counters)
  qed
  from first zero negative show ?thesis
    by blast
qed

text \<open>
  A rate of -1 with two requests that are answered: \<^verbatim>\<open>session.get\<close> is called twice and
  the exit status is 0.
\<close>

theorem nonpositive_rate_not_rejected_witness:
  "(startswith (args_url (command_line ''http://example.com/'' (- 1) 2 None)) ''http://''
     \<or> startswith (args_url (command_line ''http://example.com/'' (- 1) 2 None)) ''https://'')
   \<and> args_requests_per_second (command_line ''http://example.com/'' (- 1) 2 None) \<le> 0
   \<and> 0 < args_max_requests (command_line ''http://example.com/'' (- 1) 2 None)
   \<and> args_requests_per_second (command_line ''http://example.com/'' (- 1) 2 None) < 0
   \<and> fst (main (steady (Returns (respond 200 ''OK'')))
            (command_line ''http://example.com/'' (- 1) 2 None)) = 0
   \<and> gets (snd (main (steady (Returns (respond 200 ''OK'')))
            (command_line ''http://example.com/'' (- 1) 2 None))) = 2"
proof -
  have clean: "\<forall>k<nat (args_max_requests (command_line ''http://example.com/'' (- 1) 2 None)).
      raised (steady (Returns (respond 200 ''OK'')))
        (init (args_url (command_line ''http://example.com/'' (- 1) 2 None))
           (args_requests_per_second (command_line ''http://example.com/'' (- 1) 2 None))
           (args_max_requests (command_line ''http://example.com/'' (- 1) 2 None))
           (args_timeout (command_line ''http://example.com/'' (- 1) 2 None))
           (args_user_agent (command_line ''http://example.com/'' (- 1) 2 None))) k = None"
    by (simp add: raised_def get_outcome_def steady_def command_line_def)
  show ?thesis
    using nonpositive_rate_not_rejected [of "command_line ''http://example.com/'' (- 1) 2 None"
            "steady (Returns (respond 200 ''OK''))"] clean
    by (simp add: command_line_def startswith_def)
qed

text \<open>
  The claim C4 as stated fails. With a rate of 0 one request is sent before the division
  raises, and the error is reported as an unexpected one; with a rate of -1 both requests
  are sent and the program exits with status 0.
\<close>

theorem nonpositive_rate_sends_requests:
  "args_requests_per_second (command_line ''http://example.com/'' 0 2 None) \<le> 0
   \<and> fst (main (steady (Returns (respond 200 ''OK'')))
            (command_line ''http://example.com/'' 0 2 None)) = 1
   \<and> gets (snd (main (steady (Returns (respond 200 ''OK'')))
            (command_line ''http://example.com/'' 0 2 None))) = 1
   \<and> last (trace (snd (main (steady (Returns (respond 200 ''OK'')))
            (command_line ''http://example.com/'' 0 2 None))))
       = Log ERROR ''An unexpected error occurred: division by zero''
   \<and> args_requests_per_second (command_line ''http://example.com/'' (- 1) 2 None) \<le> 0
   \<and> fst (main (steady (Returns (respond 200 ''OK'')))
            (command_line ''http://example.com/'' (- 1) 2 None)) = 0
   \<and> gets (snd (main (steady (Returns (respond 200 ''OK'')))
            (command_line ''http://example.com/'' (- 1) 2 None))) = 2"
proof -
  have valid: "startswith (args_url (command_line ''http://example.com/'' r 2 None)) ''http://''
     \<or> startswith (args_url (command_line ''http://example.com/'' r 2 None)) ''https://''" for r
    by (simp add: command_line_def startswith_def)
  have z: "requests_per_second (init ''http://example.com/'' 0 2 5 None) = 0"
    by simp
  have nz: "requests_per_second (init ''http://example.com/'' (- 1) 2 5 None) \<noteq> 0"
    by simp
  have clean: "\<forall>k<nat (max_requests (init ''http://example.com/'' (- 1) 2 5 None)).
      raised (steady (Returns (respond 200 ''OK'')))
        (init ''http://example.com/'' (- 1) 2 5 None) (gets initial + k) = None"
    by (simp add: raised_def get_outcome_def steady_def)
  have first: "raised (steady (Returns (respond 200 ''OK'')))
        (init ''http://example.com/'' 0 2 5 None) 0 = None"
    by (simp add: raised_def get_outcome_def steady_def)
  have zero: "main (steady (Returns (respond 200 ''OK''))) (command_line ''http://example.com/'' 0 2 None)
      = (case test_rate_limiting (steady (Returns (respond 200 ''OK'')))
             (init ''http://example.com/'' 0 2 5 None) initial of
        (Inl e, s) \<Rightarrow>
          (1, logging ERROR
                ((case e of ValueError m \<Rightarrow> ''Invalid input: ''
                  | _ \<Rightarrow> ''An unexpected error occurred: '') @ str_exn e) s)
      | (Inr responses, s) \<Rightarrow> (0, report_results responses s))"
    using main_valid [OF valid [of 0], of "steady (Returns (respond 200 ''OK''))"]
    by (simp add: command_line_def)
  have neg: "main (steady (Returns (respond 200 ''OK''))) (command_line ''http://example.com/'' (- 1) 2 None)
      = (case test_rate_limiting (steady (Returns (respond 200 ''OK'')))
             (init ''http://example.com/'' (- 1) 2 5 None) initial of
        (Inl e, s) \<Rightarrow>
          (1, logging ERROR
                ((case e of ValueError m \<Rightarrow> ''Invalid input: ''
                  | _ \<Rightarrow> ''An unexpected error occurred: '') @ str_exn e) s)
      | (Inr responses, s) \<Rightarrow> (0, report_results responses s))"
    using main_valid [OF valid [of "- 1"], of "steady (Returns (respond 200 ''OK''))"]
    by (simp add: command_line_def)
  show ?thesis
    unfolding zero neg
    using first
    by (simp add: test_rate_limiting_zero [OF z] test_rate_limiting_clean [OF nz clean]
          report_results_counters logging_def emit_def command_line_def)
qed

end
